theory Spec2Isabelle
  imports Main "HOL-Library.Word"
begin

section \<open>Strings\<close>

text \<open>
  JavaScript strings are modelled as \<open>string\<close>. The source uses \<open>startsWith\<close>,
  \<open>endsWith\<close>, \<open>trim\<close> and two regular-expression matches.
\<close>

definition startsWith :: "string \<Rightarrow> string \<Rightarrow> bool" where
  "startsWith s p = (take (length p) s = p)"

definition endsWith :: "string \<Rightarrow> string \<Rightarrow> bool" where
  "endsWith s p = (length p \<le> length s \<and> drop (length s - length p) s = p)"

definition is_space :: "char \<Rightarrow> bool" where
  "is_space c = (c \<in> set [CHR 0x09, CHR 0x0A, CHR 0x0B, CHR 0x0C, CHR 0x0D, CHR 0x20, CHR 0xA0])"

definition trim :: "string \<Rightarrow> string" where
  "trim s = rev (dropWhile is_space (rev (dropWhile is_space s)))"

definition is_digit :: "char \<Rightarrow> bool" where
  "is_digit c = (c \<in> set ''0123456789'')"

definition is_ip_char :: "char \<Rightarrow> bool" where
  "is_ip_char c = (is_digit c \<or> c = CHR ''.'')"

text \<open>
  \<open>String.prototype.match\<close> with a non-global, non-sticky pattern tries the pattern at
  every start index from the left and returns the first match, or null.
\<close>

fun search :: "(string \<Rightarrow> 'a option) \<Rightarrow> string \<Rightarrow> 'a option" where
  "search m [] = m []"
| "search m (c # cs) = (case m (c # cs) of Some r \<Rightarrow> Some r | None \<Rightarrow> search m cs)"

text \<open>The pattern \<^verbatim>\<open>/c=IN IP4 ([\d.]+)/\<close> at a fixed start; the result is capture group 1.\<close>

definition match_c_at :: "string \<Rightarrow> string option" where
  "match_c_at s =
     (if startsWith s ''c=IN IP4 '' \<and> takeWhile is_ip_char (drop 9 s) \<noteq> []
      then Some (takeWhile is_ip_char (drop 9 s)) else None)"

text \<open>
  The pattern \<^verbatim>\<open>/m=audio (\d+) /\<close> at a fixed start. The greedy digit run must be
  followed by a space; giving digits back cannot help, since the character after a
  shorter run is a digit.
\<close>

definition match_m_at :: "string \<Rightarrow> string option" where
  "match_m_at s =
     (if startsWith s ''m=audio '' \<and> takeWhile is_digit (drop 8 s) \<noteq> []
         \<and> startsWith (dropWhile is_digit (drop 8 s)) '' ''
      then Some (takeWhile is_digit (drop 8 s)) else None)"

text \<open>
  \<open>parseInt(digits, 10)\<close> on a non-empty run of decimal digits. The result is kept as an
  exact natural number (a JavaScript number is exact below \<open>2 ^ 53\<close>).
\<close>

definition parseInt :: "string \<Rightarrow> nat" where
  "parseInt ds = foldl (\<lambda>n c. 10 * n + (of_char c - 48)) 0 ds"

section \<open>Data model\<close>

type_synonym buffer = "8 word list"

record inbound_message =
  subject :: string
  headers :: "string \<rightharpoonup> string"
  body :: string

text \<open>
  Outbound messages: a request is its subject line and header object (a header whose
  value is \<open>undefined\<close> is \<open>None\<close>); a response is built from the inbound message it
  answers and a status code.
\<close>

datatype sip_message =
  RequestMessage string "(string \<times> string option) list"
| ResponseMessage inbound_message nat

record softphone =
  fakeDomain :: string
  sipInfo_domain :: string

record rtp_header =
  version :: nat
  padding :: bool
  paddingSize :: nat
  extension :: bool
  marker :: bool
  payloadOffset :: nat
  payloadType :: nat
  sequenceNumber :: nat
  timestamp :: nat
  ssrc :: nat
  csrcLength :: nat
  csrc :: "nat list"
  extensionProfile :: nat
  extensionLength :: "nat option"
  extensions :: "nat list"

record rtp_packet =
  header :: rtp_header
  payload :: buffer

record srtp_session =
  localMasterKey :: buffer
  localMasterSalt :: buffer
  remoteMasterKey :: buffer
  remoteMasterSalt :: buffer

text \<open>
  The datagram socket of Node's \<open>dgram\<close> module, as far as the session uses it: whether
  it has been closed, whether \<open>bind\<close> was called and whether the session's \<open>message\<close>
  listener is attached. \<open>send\<close> and \<open>close\<close> on a closed socket raise (the socket is
  "not running").
\<close>

record udp_socket =
  sock_closed :: bool
  sock_bound :: bool
  sock_listening :: bool

datatype event =
  EvRtpPacket rtp_packet
| EvDtmfPacket rtp_packet
| EvDtmf string
| EvAudioPacket rtp_packet
| EvBusy
| EvDisposed

fun event_name :: "event \<Rightarrow> string" where
  "event_name (EvRtpPacket _) = ''rtpPacket''"
| "event_name (EvDtmfPacket _) = ''dtmfPacket''"
| "event_name (EvDtmf _) = ''dtmf''"
| "event_name (EvAudioPacket _) = ''audioPacket''"
| "event_name EvBusy = ''busy''"
| "event_name EvDisposed = ''disposed''"

datatype data = Str string | Buf buffer

text \<open>
  The observable trace of a session, in program order. \<open>Emit ev ids\<close> is one call of
  \<open>this.emit\<close> together with the listeners it invoked; \<open>SocketMessage\<close> is a datagram
  handed to the session's \<open>message\<close> listener; \<open>SocketSend\<close> is a datagram accepted by
  the socket; \<open>SocketClose\<close> is an invocation of \<open>socket.close()\<close>; \<open>SoftphoneSend\<close> is
  a message handed to the signaling channel; \<open>SrtpEncrypt\<close> is a call of
  \<open>srtpSession.encrypt\<close>; \<open>SetDisposed\<close> is the assignment \<open>this.disposed = true\<close>.
\<close>

datatype effect =
  Emit event "nat list"
| SocketCreate
| SocketBind
| SocketMessage buffer
| SocketSend data nat string
| SocketClose
| SoftphoneSend sip_message
| SrtpEncrypt buffer rtp_header
| SetDisposed

text \<open>
  The closures a session registers on the softphone's \<open>message\<close> event. Every evaluation
  of the arrow function creates a new closure; the number is its identity.
\<close>

datatype handler = ByeHandler nat | NotifyHandler nat

text \<open>A listener the application attached to the session with \<open>on\<close> or \<open>once\<close>.\<close>

record listener =
  lname :: string
  lid :: nat
  lonce :: bool

datatype error =
  TypeError
| NotRunning
| DecryptError
| DeserializeError
| DecodeError
| EncryptError
| DtmfError

record session =
  softphone :: softphone
  sipMessage :: inbound_message
  socket :: "udp_socket option"
  localPeer :: string
  remotePeer :: string
  remoteIP :: string
  remotePort :: nat
  disposed :: bool
  srtpSession :: "srtp_session option"
  listeners :: "listener list"
  handlers :: "handler list"
  next_handler :: nat
  trace :: "effect list"

text \<open>
  The result of running a method: the exception it raised, if any, and the session as the
  method left it. Effects that happened before a raise stay in the session.
\<close>

type_synonym outcome = "error option \<times> session"

text \<open>
  The collaborators imported from modules outside this file (\<open>werift-rtp\<close>,
  \<open>@discordjs/opus\<close>, \<open>../dtmf\<close>, \<open>../utils\<close>) are parameters. A function that can
  throw returns \<open>None\<close> when it does.
\<close>

record env =
  localKey :: string
  base64 :: "string \<Rightarrow> buffer"
  srtp_encrypt :: "srtp_session \<Rightarrow> buffer \<Rightarrow> rtp_header \<Rightarrow> buffer option"
  srtp_decrypt :: "srtp_session \<Rightarrow> buffer \<Rightarrow> buffer option"
  deSerialize :: "buffer \<Rightarrow> rtp_packet option"
  opus_decode :: "buffer \<Rightarrow> buffer option"
  charToPayloads :: "string \<Rightarrow> buffer list option"
  payloadToChar :: "buffer \<Rightarrow> string option"
  extractAddress :: "string \<Rightarrow> string"

section \<open>The call session\<close>

text \<open>
  The constructor. \<open>match(...)![1]\<close> raises a TypeError when the match is null. The two
  peers are assigned by the subclasses; they are empty until then.
\<close>

definition CallSession_constructor :: "softphone \<Rightarrow> inbound_message \<Rightarrow> error + session" where
  "CallSession_constructor sp msg =
     (case search match_c_at (body msg) of
        None \<Rightarrow> Inl TypeError
      | Some ip \<Rightarrow>
          (case search match_m_at (body msg) of
             None \<Rightarrow> Inl TypeError
           | Some port \<Rightarrow>
               Inr \<lparr>softphone = sp, sipMessage = msg, socket = None, localPeer = [],
                    remotePeer = [], remoteIP = ip, remotePort = parseInt port,
                    disposed = False, srtpSession = None, listeners = [], handlers = [],
                    next_handler = 0, trace = []\<rparr>))"

definition set_remoteKey :: "env \<Rightarrow> session \<Rightarrow> string \<Rightarrow> session" where
  "set_remoteKey env s key =
     (let localKeyBuffer = base64 env (localKey env);
          remoteKeyBuffer = base64 env key
      in s\<lparr>srtpSession := Some
             \<lparr>localMasterKey = take 16 localKeyBuffer,
              localMasterSalt = take 14 (drop 16 localKeyBuffer),
              remoteMasterKey = take 16 remoteKeyBuffer,
              remoteMasterSalt = take 14 (drop 16 remoteKeyBuffer)\<rparr>\<rparr>)"

definition callId :: "session \<Rightarrow> string option" where
  "callId s = headers (sipMessage s) ''Call-ID''"

text \<open>\<open>EventEmitter.emit\<close>: the listeners of the event run; a \<open>once\<close> listener is removed.\<close>

definition emit :: "session \<Rightarrow> event \<Rightarrow> session" where
  "emit s ev =
     s\<lparr>listeners := filter (\<lambda>l. \<not> (lname l = event_name ev \<and> lonce l)) (listeners s),
       trace := trace s @
         [Emit ev (map lid (filter (\<lambda>l. lname l = event_name ev) (listeners s)))]\<rparr>"

definition softphone_send :: "session \<Rightarrow> sip_message \<Rightarrow> session" where
  "softphone_send s m = s\<lparr>trace := trace s @ [SoftphoneSend m]\<rparr>"

definition send :: "session \<Rightarrow> data \<Rightarrow> outcome" where
  "send s d =
     (case socket s of
        None \<Rightarrow> (Some TypeError, s)
      | Some sock \<Rightarrow>
          if sock_closed sock then (Some NotRunning, s)
          else (None, s\<lparr>trace := trace s @ [SocketSend d (remotePort s) (remoteIP s)]\<rparr>))"

text \<open>
  \<open>dispose\<close>. \<open>this.socket.removeAllListeners()\<close> raises a TypeError when the socket was
  never created; \<open>close\<close> on a closed socket raises.
\<close>

definition dispose :: "session \<Rightarrow> outcome" where
  "dispose s =
     (let s1 = s\<lparr>disposed := True, trace := trace s @ [SetDisposed]\<rparr>;
          s2 = emit s1 EvDisposed;
          s3 = s2\<lparr>listeners := []\<rparr>
      in case socket s3 of
           None \<Rightarrow> (Some TypeError, s3)
         | Some sock \<Rightarrow>
             (let s4 = s3\<lparr>socket := Some (sock\<lparr>sock_listening := False\<rparr>),
                          trace := trace s3 @ [SocketClose]\<rparr>
              in if sock_closed sock then (Some NotRunning, s4)
                 else (None, s4\<lparr>socket := Some (sock\<lparr>sock_listening := False,
                                                      sock_closed := True\<rparr>)\<rparr>)))"

text \<open>
  \<open>transfer\<close>; \<open>br\<close> is the value \<open>branch()\<close> returns. \<open>off\<close> removes the one closure it
  is given.
\<close>

definition notifyHandler :: "nat \<Rightarrow> session \<Rightarrow> inbound_message \<Rightarrow> outcome" where
  "notifyHandler k s inboundMessage =
     (if \<not> startsWith (subject inboundMessage) ''NOTIFY '' then (None, s)
      else
        let s1 = softphone_send s (ResponseMessage inboundMessage 200)
        in if trim (body inboundMessage) = ''SIP/2.0 200 OK''
           then (None, s1\<lparr>handlers := remove1 (NotifyHandler k) (handlers s1)\<rparr>)
           else (None, s1))"

definition transfer :: "env \<Rightarrow> session \<Rightarrow> string \<Rightarrow> string \<Rightarrow> outcome" where
  "transfer env s target br =
     (let requestMessage = RequestMessage
            (''REFER sip:'' @ extractAddress env (remotePeer s) @ '' SIP/2.0'')
            [(''Call-ID'', callId s),
             (''From'', Some (localPeer s)),
             (''To'', Some (remotePeer s)),
             (''Via'', Some (''SIP/2.0/TLS '' @ fakeDomain (softphone s) @ '';branch='' @ br)),
             (''Refer-To'', Some (''sip:'' @ target @ ''@sip.ringcentral.com'')),
             (''Referred-By'', Some (''<'' @ extractAddress env (localPeer s) @ ''>''))];
          s1 = softphone_send s requestMessage
      in (None, s1\<lparr>handlers := handlers s1 @ [NotifyHandler (next_handler s1)],
                   next_handler := Suc (next_handler s1)\<rparr>))"

definition hangup :: "session \<Rightarrow> string \<Rightarrow> outcome" where
  "hangup s br =
     (let requestMessage = RequestMessage
            (''BYE sip:'' @ sipInfo_domain (softphone s) @ '' SIP/2.0'')
            [(''Call-ID'', callId s),
             (''From'', Some (localPeer s)),
             (''To'', Some (remotePeer s)),
             (''Via'', Some (''SIP/2.0/TLS '' @ fakeDomain (softphone s) @ '';branch='' @ br))]
      in (None, softphone_send s requestMessage))"

text \<open>
  \<open>sendDTMF\<close>; \<open>now\<close> is \<open>Date.now()\<close> and \<open>rnd\<close> is \<open>randomInt()\<close>. The loop body
  assigns the sequence number, encrypts and sends; the iterable
  \<open>DTMF.charToPayloads(char)\<close> is evaluated before the first iteration.
\<close>

fun sendDTMF_loop :: "env \<Rightarrow> session \<Rightarrow> rtp_header \<Rightarrow> nat \<Rightarrow> buffer list \<Rightarrow> outcome" where
  "sendDTMF_loop env s rtpHeader seqno [] = (None, s)"
| "sendDTMF_loop env s rtpHeader seqno (p # ps) =
     (let rtpHeader' = rtpHeader\<lparr>sequenceNumber := seqno\<rparr>
      in case srtpSession s of
           None \<Rightarrow> (Some TypeError, s)
         | Some k \<Rightarrow>
             (let s1 = s\<lparr>trace := trace s @ [SrtpEncrypt p rtpHeader']\<rparr>
              in case srtp_encrypt env k p rtpHeader' of
                   None \<Rightarrow> (Some EncryptError, s1)
                 | Some ct \<Rightarrow>
                     (case send s1 (Buf ct) of
                        (Some e, s2) \<Rightarrow> (Some e, s2)
                      | (None, s2) \<Rightarrow> sendDTMF_loop env s2 rtpHeader' (Suc seqno) ps)))"

definition sendDTMF :: "env \<Rightarrow> session \<Rightarrow> string \<Rightarrow> nat \<Rightarrow> nat \<Rightarrow> outcome" where
  "sendDTMF env s char now rnd =
     (let timestamp' = now div 1000;
          seqno = timestamp' mod 65536;
          rtpHeader = \<lparr>version = 2, padding = False, paddingSize = 0, extension = False,
                       marker = False, payloadOffset = 12, payloadType = 101,
                       sequenceNumber = seqno, timestamp = timestamp',
                       ssrc = rnd, csrcLength = 0, csrc = [], extensionProfile = 48862,
                       extensionLength = None, extensions = []\<rparr>
      in case charToPayloads env char of
           None \<Rightarrow> (Some DtmfError, s)
         | Some payloads \<Rightarrow> sendDTMF_loop env s rtpHeader seqno payloads)"

text \<open>
  \<open>streamAudio\<close> hands the session to the \<open>Streamer\<close> class of another module and is not
  modelled.
\<close>

text \<open>The listener \<open>startLocalServices\<close> attaches to the socket's \<open>message\<close> event.\<close>

definition socket_message_handler :: "env \<Rightarrow> session \<Rightarrow> buffer \<Rightarrow> outcome" where
  "socket_message_handler env s message =
     (case srtpSession s of
        None \<Rightarrow> (Some TypeError, s)
      | Some k \<Rightarrow>
          (case srtp_decrypt env k message of
             None \<Rightarrow> (Some DecryptError, s)
           | Some plain \<Rightarrow>
               (case deSerialize env plain of
                  None \<Rightarrow> (Some DeserializeError, s)
                | Some rtpPacket \<Rightarrow>
                    (let s1 = emit s (EvRtpPacket rtpPacket)
                     in if payloadType (header rtpPacket) = 101
                        then
                          (let s2 = emit s1 (EvDtmfPacket rtpPacket)
                           in case payloadToChar env (payload rtpPacket) of
                                None \<Rightarrow> (None, s2)
                              | Some char \<Rightarrow>
                                  if char \<noteq> [] then (None, emit s2 (EvDtmf char))
                                  else (None, s2))
                        else
                          (case opus_decode env (payload rtpPacket) of
                             None \<Rightarrow> (Some DecodeError, s1)
                           | Some pcm \<Rightarrow>
                               (None, emit s1 (EvAudioPacket (rtpPacket\<lparr>payload := pcm\<rparr>))))))))"

text \<open>
  A datagram arriving on the session's socket: it reaches the listener only while the
  socket exists, is open and has the listener attached.
\<close>

definition socket_receive :: "env \<Rightarrow> session \<Rightarrow> buffer \<Rightarrow> outcome" where
  "socket_receive env s message =
     (case socket s of
        None \<Rightarrow> (None, s)
      | Some sock \<Rightarrow>
          if sock_closed sock \<or> \<not> sock_listening sock then (None, s)
          else socket_message_handler env (s\<lparr>trace := trace s @ [SocketMessage message]\<rparr>) message)"

definition byeHandler :: "nat \<Rightarrow> session \<Rightarrow> inbound_message \<Rightarrow> outcome" where
  "byeHandler k s inboundMessage =
     (if headers inboundMessage ''Call-ID'' \<noteq> callId s then (None, s)
      else if endsWith (subject inboundMessage) ''486 Busy Here''
      then dispose (emit (s\<lparr>handlers := remove1 (ByeHandler k) (handlers s)\<rparr>) EvBusy)
      else
        (case headers inboundMessage ''CSeq'' of
           None \<Rightarrow> (Some TypeError, s)
         | Some cseq \<Rightarrow>
             if endsWith cseq '' BYE''
             then dispose (s\<lparr>handlers := remove1 (ByeHandler k) (handlers s)\<rparr>)
             else (None, s)))"

definition startLocalServices :: "env \<Rightarrow> session \<Rightarrow> outcome" where
  "startLocalServices env s =
     (let s1 = s\<lparr>socket := Some \<lparr>sock_closed = False, sock_bound = False,
                                 sock_listening = True\<rparr>,
                 trace := trace s @ [SocketCreate]\<rparr>;
          s2 = s1\<lparr>socket := Some \<lparr>sock_closed = False, sock_bound = True,
                                  sock_listening = True\<rparr>,
                  trace := trace s1 @ [SocketBind]\<rparr>
      in case send s2 (Str ''hello'') of
           (Some e, s3) \<Rightarrow> (Some e, s3)
         | (None, s3) \<Rightarrow>
             (None, s3\<lparr>handlers := handlers s3 @ [ByeHandler (next_handler s3)],
                       next_handler := Suc (next_handler s3)\<rparr>))"

section \<open>The signaling channel\<close>

text \<open>
  The softphone emits \<open>message\<close> for every inbound SIP message. \<open>emit\<close> runs the
  listeners that were registered when it started, in order, also those removed while it
  runs; an exception leaves \<open>emit\<close> at once.
\<close>

fun run_handler :: "handler \<Rightarrow> session \<Rightarrow> inbound_message \<Rightarrow> outcome" where
  "run_handler (ByeHandler k) s m = byeHandler k s m"
| "run_handler (NotifyHandler k) s m = notifyHandler k s m"

fun dispatch :: "handler list \<Rightarrow> session \<Rightarrow> inbound_message \<Rightarrow> outcome" where
  "dispatch [] s m = (None, s)"
| "dispatch (h # hs) s m =
     (case run_handler h s m of
        (Some e, s1) \<Rightarrow> (Some e, s1)
      | (None, s1) \<Rightarrow> dispatch hs s1 m)"

definition softphone_message :: "session \<Rightarrow> inbound_message \<Rightarrow> outcome" where
  "softphone_message s m = dispatch (handlers s) s m"

section \<open>Projections of the trace\<close>

fun events_of :: "effect list \<Rightarrow> event list" where
  "events_of [] = []"
| "events_of (Emit ev ids # es) = ev # events_of es"
| "events_of (_ # es) = events_of es"

fun sip_sent :: "effect list \<Rightarrow> sip_message list" where
  "sip_sent [] = []"
| "sip_sent (SoftphoneSend m # es) = m # sip_sent es"
| "sip_sent (_ # es) = sip_sent es"

fun requests_sent :: "effect list \<Rightarrow> string list" where
  "requests_sent [] = []"
| "requests_sent (SoftphoneSend (RequestMessage subj hs) # es) = subj # requests_sent es"
| "requests_sent (_ # es) = requests_sent es"

fun is_close :: "effect \<Rightarrow> bool" where
  "is_close SocketClose = True"
| "is_close _ = False"

text \<open>Socket input and output, and events emitted by the session.\<close>

fun is_io :: "effect \<Rightarrow> bool" where
  "is_io (Emit ev ids) = True"
| "is_io (SocketMessage b) = True"
| "is_io (SocketSend d p a) = True"
| "is_io _ = False"

fun is_bye :: "handler \<Rightarrow> bool" where
  "is_bye (ByeHandler k) = True"
| "is_bye (NotifyHandler k) = False"

section \<open>Sequences of calls\<close>



text \<open>
  What can happen to a session after \<open>startLocalServices\<close>: the application calls a
  public method or attaches a listener, a datagram arrives, or the softphone emits an
  inbound SIP message. An exception goes to the caller; the session stays as the call
  left it.
\<close>

datatype call =
  Send data
| Transfer string string
| Hangup string
| SendDTMF string nat nat
| SetRemoteKey string
| On string nat bool
| Datagram buffer
| SipMessage inbound_message

fun step :: "env \<Rightarrow> session \<Rightarrow> call \<Rightarrow> session" where
  "step env s (Send d) = snd (send s d)"
| "step env s (Transfer target br) = snd (transfer env s target br)"
| "step env s (Hangup br) = snd (hangup s br)"
| "step env s (SendDTMF char now rnd) = snd (sendDTMF env s char now rnd)"
| "step env s (SetRemoteKey key) = set_remoteKey env s key"
| "step env s (On name i once) =
     s\<lparr>listeners := listeners s @ [\<lparr>lname = name, lid = i, lonce = once\<rparr>]\<rparr>"
| "step env s (Datagram message) = snd (socket_receive env s message)"
| "step env s (SipMessage m) = snd (softphone_message s m)"

definition run :: "env \<Rightarrow> session \<Rightarrow> call list \<Rightarrow> session" where
  "run env s cs = foldl (step env) s cs"

section \<open>The DTMF codec\<close>

definition phoneChars :: "string list" where
  "phoneChars = map (\<lambda>c. [c]) ''0123456789*#''"

fun indexOf :: "'a list \<Rightarrow> 'a \<Rightarrow> nat option" where
  "indexOf [] x = None"
| "indexOf (y # ys) x = (if x = y then Some 0 else map_option Suc (indexOf ys x))"

text \<open>
  Modelled from the spec: \<open>DTMF.charToPayloads\<close> of the module \<open>../dtmf\<close>, which is not
  among the sources. Its input is restricted to the characters 0-9, * and #; the event
  code of a character is 0-9, 10 for * and 11 for #. The spec fixes neither the volume
  nor the durations, so the burst of payloads for an event code is the parameter
  \<open>burst\<close>. Any other input is rejected.
\<close>

definition charToPayloads_spec :: "(nat \<Rightarrow> buffer list) \<Rightarrow> string \<Rightarrow> buffer list option" where
  "charToPayloads_spec burst char = map_option burst (indexOf phoneChars char)"

section \<open>Session-description lines\<close>

text \<open>
  The two fields of the session description as the spec names them: \<open>c=IN IP4 <ip>\<close>
  and \<open>m=audio <port> \<close>, anywhere in the body.
\<close>

definition has_connection_line :: "string \<Rightarrow> bool" where
  "has_connection_line b =
     (\<exists>pre ip post. ip \<noteq> [] \<and> (\<forall>c \<in> set ip. is_ip_char c) \<and> b = pre @ ''c=IN IP4 '' @ ip @ post)"

definition has_audio_line :: "string \<Rightarrow> bool" where
  "has_audio_line b =
     (\<exists>pre port post. port \<noteq> [] \<and> (\<forall>c \<in> set port. is_digit c)
        \<and> b = pre @ ''m=audio '' @ port @ '' '' @ post)"

section \<open>A sample call\<close>

definition ex_softphone :: softphone where
  "ex_softphone = \<lparr>fakeDomain = ''fake.invalid'', sipInfo_domain = ''sip.example.com''\<rparr>"

definition ex_invite :: inbound_message where
  "ex_invite =
     \<lparr>subject = ''INVITE sip:alice@example.com SIP/2.0'',
      headers = [''Call-ID'' \<mapsto> ''call-1'', ''CSeq'' \<mapsto> ''1 INVITE''],
      body = ''c=IN IP4 10.0.0.7 m=audio 4000 RTP/SAVP 0 101''\<rparr>"

text \<open>
  Sample collaborators: a datagram whose first byte is 0 does not decrypt, the first byte
  of a decrypted datagram is its payload type, and the event code of a telephone-event
  payload is its first byte.
\<close>

definition ex_header :: "nat \<Rightarrow> rtp_header" where
  "ex_header pt =
     \<lparr>version = 2, padding = False, paddingSize = 0, extension = False, marker = False,
      payloadOffset = 12, payloadType = pt, sequenceNumber = 0, timestamp = 0, ssrc = 0,
      csrcLength = 0, csrc = [], extensionProfile = 48862, extensionLength = None,
      extensions = []\<rparr>"

definition ex_env :: env where
  "ex_env =
     \<lparr>localKey = ''local'',
      base64 = map of_char,
      srtp_encrypt = (\<lambda>k p h. Some p),
      srtp_decrypt = (\<lambda>k m. case m of [] \<Rightarrow> None | b # bs \<Rightarrow> if b = 0 then None else Some m),
      deSerialize = (\<lambda>b. case b of [] \<Rightarrow> None
                          | pt # rest \<Rightarrow> Some \<lparr>header = ex_header (unat pt), payload = rest\<rparr>),
      opus_decode = Some,
      charToPayloads = charToPayloads_spec (\<lambda>code. [[word_of_nat code, 10, 0, 160],
                                                       [word_of_nat code, 138, 3, 32]]),
      payloadToChar = (\<lambda>p. case p of [] \<Rightarrow> None
                            | b # bs \<Rightarrow> if unat b < 12 then Some (phoneChars ! unat b) else None),
      extractAddress = (\<lambda>peer. takeWhile (\<lambda>c. c \<noteq> CHR ''>'') (drop 5 peer))\<rparr>"

text \<open>
  The session after construction, with the peers assigned, and after \<open>startLocalServices\<close>.
\<close>

definition ex_session :: session where
  "ex_session =
     \<lparr>softphone = ex_softphone, sipMessage = ex_invite, socket = None, localPeer = [],
      remotePeer = [], remoteIP = ''10.0.0.7'', remotePort = 4000, disposed = False,
      srtpSession = None, listeners = [], handlers = [], next_handler = 0, trace = []\<rparr>"

definition ex_call :: session where
  "ex_call =
     ex_session\<lparr>localPeer := ''<sip:alice@example.com>'', remotePeer := ''<sip:bob@example.com>''\<rparr>"

definition ex_live :: session where
  "ex_live =
     ex_call
       \<lparr>socket := Some \<lparr>sock_closed = False, sock_bound = True, sock_listening = True\<rparr>,
        handlers := [ByeHandler 0], next_handler := 1,
        trace := [SocketCreate, SocketBind, SocketSend (Str ''hello'') 4000 ''10.0.0.7'']\<rparr>"

definition ex_busy :: inbound_message where
  "ex_busy =
     \<lparr>subject = ''SIP/2.0 486 Busy Here'',
      headers = [''Call-ID'' \<mapsto> ''call-1'', ''CSeq'' \<mapsto> ''1 INVITE''],
      body = []\<rparr>"

definition ex_bye :: inbound_message where
  "ex_bye =
     \<lparr>subject = ''BYE sip:alice@example.com SIP/2.0'',
      headers = [''Call-ID'' \<mapsto> ''call-1'', ''CSeq'' \<mapsto> ''2 BYE''],
      body = []\<rparr>"

text \<open>The sample session with the remote key set, and three datagrams.\<close>

definition ex_keyed :: session where
  "ex_keyed = set_remoteKey ex_env ex_live ''remote''"

definition ex_audio :: buffer where
  "ex_audio = [8, 1, 2, 3]"





text \<open>The sample session after \<open>transfer\<close>, and a NOTIFY that belongs to another call.\<close>

definition ex_transferring :: session where
  "ex_transferring = snd (transfer ex_env ex_live ''18005551212'' ''z9hG4bK-1'')"

definition ex_foreign_notify :: inbound_message where
  "ex_foreign_notify =
     \<lparr>subject = ''NOTIFY sip:bob@example.com SIP/2.0'',
      headers = [''Call-ID'' \<mapsto> ''call-2'', ''CSeq'' \<mapsto> ''7 NOTIFY''],
      body = ''SIP/2.0 200 OK''\<rparr>"

section \<open>Transfer progress\<close>

text \<open>The inbound SIP messages the softphone emits, one after the other.\<close>

definition deliver_all :: "session \<Rightarrow> inbound_message list \<Rightarrow> session" where
  "deliver_all s ms = foldl (\<lambda>t m. snd (softphone_message t m)) s ms"

text \<open>
  A NOTIFY request: its subject starts with the method name; being a request its
  subject is no "486 Busy Here" status line, and its CSeq header names a method other than BYE.
\<close>

definition notify_request :: "inbound_message \<Rightarrow> bool" where
  "notify_request m =
     (startsWith (subject m) ''NOTIFY '' \<and> \<not> endsWith (subject m) ''486 Busy Here'' \<and>
      (case headers m ''CSeq'' of None \<Rightarrow> False | Some cseq \<Rightarrow> \<not> endsWith cseq '' BYE''))"

definition final_notify :: "inbound_message \<Rightarrow> bool" where
  "final_notify m = (trim (body m) = ''SIP/2.0 200 OK'')"

text \<open>The messages of a list up to and including the first that reports final success.\<close>

fun until_final :: "inbound_message list \<Rightarrow> inbound_message list" where
  "until_final [] = []"
| "until_final (m # ms) = (if final_notify m then [m] else m # until_final ms)"

definition ex_notify :: "string \<Rightarrow> inbound_message" where
  "ex_notify b =
     \<lparr>subject = ''NOTIFY sip:alice@example.com SIP/2.0'',
      headers = [''Call-ID'' \<mapsto> ''call-1'', ''CSeq'' \<mapsto> ''3 NOTIFY''],
      body = b\<rparr>"

definition ex_no_audio :: inbound_message where
  "ex_no_audio =
     \<lparr>subject = ''INVITE sip:alice@example.com SIP/2.0'',
      headers = [''Call-ID'' \<mapsto> ''call-3'', ''CSeq'' \<mapsto> ''1 INVITE''],
      body = ''c=IN IP4 10.0.0.7 m=video 4000 RTP/AVP 96''\<rparr>"

section \<open>Disposal\<close>

text \<open>A socket that neither sends nor delivers: never created, or closed.\<close>

definition dead :: "udp_socket option \<Rightarrow> bool" where
  "dead so = (case so of None \<Rightarrow> True | Some sock \<Rightarrow> sock_closed sock)"

text \<open>The part of a trace from the first assignment of the disposed flag on.\<close>

definition after_disposed :: "effect list \<Rightarrow> effect list" where
  "after_disposed tr = dropWhile (\<lambda>e. e \<noteq> SetDisposed) tr"

text \<open>What \<open>dispose\<close> leaves in the trace.\<close>

fun terminal :: "effect \<Rightarrow> bool" where
  "terminal SetDisposed = True"
| "terminal SocketClose = True"
| "terminal (Emit EvDisposed ids) = True"
| "terminal _ = False"

text \<open>
  A call that leaves the flag, the socket and the busy/teardown listeners alone, adds
  nothing of what \<open>dispose\<close> does, and adds no socket input or output and no event when
  the socket is dead.
\<close>

definition quiet :: "session \<Rightarrow> session \<Rightarrow> bool" where
  "quiet s s' =
     (disposed s' = disposed s \<and> socket s' = socket s \<and>
      filter is_bye (handlers s') = filter is_bye (handlers s) \<and>
      (\<exists>es. trace s' = trace s @ es \<and> (\<forall>e \<in> set es. \<not> terminal e) \<and>
            (dead (socket s) \<longrightarrow> (\<forall>e \<in> set es. \<not> is_io e))))"

text \<open>
  The invariant of a session after \<open>startLocalServices\<close>: at most one busy/teardown
  listener is registered; a disposed session has none, its socket is dead, and the only
  socket traffic or event in its trace since the flag was assigned is one \<open>disposed\<close>
  event.
\<close>

definition settled :: "session \<Rightarrow> bool" where
  "settled s =
     (length (filter is_bye (handlers s)) \<le> 1 \<and>
      (if disposed s
       then filter is_bye (handlers s) = [] \<and> dead (socket s) \<and>
            SetDisposed \<in> set (trace s) \<and>
            (\<exists>ids. filter is_io (after_disposed (trace s)) = [Emit EvDisposed ids])
       else SetDisposed \<notin> set (trace s)))"

text \<open>
  A session is disposed at most once: the flag is assigned once, \<open>disposed\<close> is emitted
  once and \<open>close\<close> is invoked at most once.
\<close>

definition disposed_once :: "session \<Rightarrow> bool" where
  "disposed_once s =
     (if disposed s
      then \<exists>ids. filter terminal (trace s) = [SetDisposed, Emit EvDisposed ids] \<or>
                 filter terminal (trace s) = [SetDisposed, Emit EvDisposed ids, SocketClose]
      else filter terminal (trace s) = [])"


section \<open>Basic facts\<close>

lemma events_of_append: "events_of (xs @ ys) = events_of xs @ events_of ys"
  by (induction xs rule: events_of.induct) simp_all

lemma sip_sent_append: "sip_sent (xs @ ys) = sip_sent xs @ sip_sent ys"
  by (induction xs rule: sip_sent.induct) simp_all

lemma requests_sent_append: "requests_sent (xs @ ys) = requests_sent xs @ requests_sent ys"
  by (induction xs rule: requests_sent.induct) simp_all

lemma emit_fields:
  "disposed (emit s ev) = disposed s"
  "socket (emit s ev) = socket s"
  "handlers (emit s ev) = handlers s"
  "srtpSession (emit s ev) = srtpSession s"
  "sipMessage (emit s ev) = sipMessage s"
  "trace (emit s ev) =
     trace s @ [Emit ev (map lid (filter (\<lambda>l. lname l = event_name ev) (listeners s)))]"
  by (simp_all add: emit_def)

lemma callId_emit: "callId (emit s ev) = callId s"
  by (simp add: callId_def emit_fields)

lemma dispose_events:
  "events_of (trace (snd (dispose s))) = events_of (trace s) @ [EvDisposed]"
  by (simp add: dispose_def Let_def emit_fields events_of_append split: option.splits)

lemma dispose_requests:
  "requests_sent (trace (snd (dispose s))) = requests_sent (trace s)"
  by (simp add: dispose_def Let_def emit_fields requests_sent_append split: option.splits)

lemma dispose_sip_sent:
  "sip_sent (trace (snd (dispose s))) = sip_sent (trace s)"
  by (simp add: dispose_def Let_def emit_fields sip_sent_append split: option.splits)

lemma dispose_disposed: "disposed (snd (dispose s))"
  by (simp add: dispose_def Let_def emit_fields split: option.splits)

lemma notifyHandler_quiet:
  "fst (notifyHandler k s m) = None"
  "events_of (trace (snd (notifyHandler k s m))) = events_of (trace s)"
  "requests_sent (trace (snd (notifyHandler k s m))) = requests_sent (trace s)"
  "callId (snd (notifyHandler k s m)) = callId s"
  by (simp_all add: notifyHandler_def softphone_send_def Let_def callId_def
      events_of_append requests_sent_append)

lemma dispatch_notify_only:
  "\<forall>h \<in> set hs. \<not> is_bye h \<Longrightarrow>
     events_of (trace (snd (dispatch hs s m))) = events_of (trace s) \<and>
     requests_sent (trace (snd (dispatch hs s m))) = requests_sent (trace s)"
proof (induction hs arbitrary: s)
  case Nil
  show ?case by simp
next
  case (Cons h hs)
  then obtain j where h: "h = NotifyHandler j"
    by (cases h) auto
  obtain s1 where r: "notifyHandler j s m = (None, s1)"
    using notifyHandler_quiet(1) [of j s m] by (cases "notifyHandler j s m") auto
  have "events_of (trace s1) = events_of (trace s)"
    and "requests_sent (trace s1) = requests_sent (trace s)"
    using notifyHandler_quiet(2,3) [of j s m] r by simp_all
  moreover have "\<forall>h \<in> set hs. \<not> is_bye h"
    using Cons.prems by simp
  ultimately show ?case
    using Cons.IH [of s1] h r by simp
qed

lemma byeHandler_busy:
  assumes "headers m ''Call-ID'' = callId s" and "endsWith (subject m) ''486 Busy Here''"
  shows "events_of (trace (snd (byeHandler k s m))) = events_of (trace s) @ [EvBusy, EvDisposed]"
    and "requests_sent (trace (snd (byeHandler k s m))) = requests_sent (trace s)"
  using assms
  by (simp_all add: byeHandler_def dispose_events dispose_requests emit_fields
      events_of_append requests_sent_append)

lemma dispatch_busy:
  assumes "filter is_bye hs = [ByeHandler k]"
    and "headers m ''Call-ID'' = callId s"
    and "endsWith (subject m) ''486 Busy Here''"
  shows "events_of (trace (snd (dispatch hs s m))) = events_of (trace s) @ [EvBusy, EvDisposed] \<and>
         requests_sent (trace (snd (dispatch hs s m))) = requests_sent (trace s)"
  using assms
proof (induction hs arbitrary: s)
  case Nil
  then show ?case by simp
next
  case (Cons h hs)
  show ?case
  proof (cases h)
    case (ByeHandler j)
    with Cons.prems(1) have rest: "\<forall>h \<in> set hs. \<not> is_bye h"
      by (auto simp: filter_empty_conv)
    obtain e s1 where r: "byeHandler j s m = (e, s1)"
      by (cases "byeHandler j s m")
    have ev: "events_of (trace s1) = events_of (trace s) @ [EvBusy, EvDisposed]"
      and rq: "requests_sent (trace s1) = requests_sent (trace s)"
      using byeHandler_busy [OF Cons.prems(2,3), of j] r by simp_all
    show ?thesis
    proof (cases e)
      case None
      with ByeHandler r ev rq dispatch_notify_only [OF rest, of s1 m] show ?thesis by simp
    next
      case (Some err)
      with ByeHandler r ev rq show ?thesis by simp
    qed
  next
    case (NotifyHandler j)
    obtain s1 where r: "notifyHandler j s m = (None, s1)"
      using notifyHandler_quiet(1) [of j s m] by (cases "notifyHandler j s m") auto
    have ev: "events_of (trace s1) = events_of (trace s)"
      and rq: "requests_sent (trace s1) = requests_sent (trace s)"
      and ci: "callId s1 = callId s"
      using notifyHandler_quiet(2,3,4) [of j s m] r by simp_all
    have "filter is_bye hs = [ByeHandler k]"
      using Cons.prems(1) NotifyHandler by simp
    from Cons.IH [OF this, of s1] Cons.prems(2,3) ci ev rq NotifyHandler r
    show ?thesis by simp
  qed
qed

section \<open>Claims\<close>

text \<open>
  C6. A session whose busy/teardown listener is registered receives a SIP message with
  the session's Call-ID and a subject ending in "486 Busy Here": while the softphone
  delivers that message the session emits \<open>busy\<close> once, then \<open>disposed\<close> once, and hands
  no request, so no BYE, to the signaling channel.
\<close>

theorem busy_then_disposed_no_bye:
  assumes "filter is_bye (handlers s) = [ByeHandler k]"
    and "headers m ''Call-ID'' = callId s"
    and "endsWith (subject m) ''486 Busy Here''"
  shows "events_of (trace (snd (softphone_message s m))) = events_of (trace s) @ [EvBusy, EvDisposed] \<and>
         requests_sent (trace (snd (softphone_message s m))) = requests_sent (trace s)"
  unfolding softphone_message_def using assms by (rule dispatch_busy)

theorem busy_then_disposed_no_bye_witness:
  "filter is_bye (handlers ex_live) = [ByeHandler 0] \<and>
   headers ex_busy ''Call-ID'' = callId ex_live \<and>
   endsWith (subject ex_busy) ''486 Busy Here'' \<and>
   events_of (trace (snd (softphone_message ex_live ex_busy))) = [EvBusy, EvDisposed] \<and>
   requests_sent (trace (snd (softphone_message ex_live ex_busy))) = []"
proof -
  have h: "filter is_bye (handlers ex_live) = [ByeHandler 0]"
    by (simp add: ex_live_def ex_call_def ex_session_def)
  have c: "headers ex_busy ''Call-ID'' = callId ex_live"
    by (simp add: ex_busy_def callId_def ex_live_def ex_call_def ex_session_def ex_invite_def)
  have b: "endsWith (subject ex_busy) ''486 Busy Here''"
    by (simp add: ex_busy_def endsWith_def)
  have t: "events_of (trace ex_live) = []" "requests_sent (trace ex_live) = []"
    by (simp_all add: ex_live_def ex_call_def ex_session_def)
  show ?thesis
    using busy_then_disposed_no_bye [OF h c b] h c b t by simp
qed

text \<open>
  C10. A datagram that reaches the listener and decrypts and deserializes is announced
  with \<open>rtpPacket\<close>, carrying the decrypted packet, whatever its payload type; the
  classified \<open>dtmfPacket\<close> or \<open>audioPacket\<close> event for the datagram comes after it.
\<close>

theorem rtpPacket_emitted_first:
  assumes "socket s = Some sock" and "\<not> sock_closed sock" and "sock_listening sock"
    and "srtpSession s = Some k"
    and "srtp_decrypt env k message = Some plain"
    and "deSerialize env plain = Some rtpPacket"
  shows "events_of (trace (snd (socket_receive env s message))) =
     events_of (trace s) @ EvRtpPacket rtpPacket #
       (if payloadType (header rtpPacket) = 101
        then EvDtmfPacket rtpPacket #
          (case payloadToChar env (payload rtpPacket) of
             None \<Rightarrow> []
           | Some char \<Rightarrow> if char \<noteq> [] then [EvDtmf char] else [])
        else
          (case opus_decode env (payload rtpPacket) of
             None \<Rightarrow> []
           | Some pcm \<Rightarrow> [EvAudioPacket (rtpPacket\<lparr>payload := pcm\<rparr>)]))"
  using assms
  by (simp add: socket_receive_def socket_message_handler_def Let_def emit_fields
      events_of_append split: option.splits)

theorem rtpPacket_emitted_first_witness:
  "events_of (trace (snd (socket_receive ex_env ex_keyed ex_audio))) =
     [EvRtpPacket \<lparr>header = ex_header 8, payload = [1, 2, 3]\<rparr>,
      EvAudioPacket \<lparr>header = ex_header 8, payload = [1, 2, 3]\<rparr>]"
proof -
  have 1: "socket ex_keyed = Some \<lparr>sock_closed = False, sock_bound = True, sock_listening = True\<rparr>"
    by (simp add: ex_keyed_def set_remoteKey_def Let_def ex_live_def ex_call_def ex_session_def)
  have 2: "srtpSession ex_keyed = Some (the (srtpSession ex_keyed))"
    by (simp add: ex_keyed_def set_remoteKey_def Let_def)
  have 3: "srtp_decrypt ex_env (the (srtpSession ex_keyed)) ex_audio = Some ex_audio"
    by (simp add: ex_env_def ex_audio_def)
  have 4: "deSerialize ex_env ex_audio = Some \<lparr>header = ex_header 8, payload = [1, 2, 3]\<rparr>"
    by (simp add: ex_env_def ex_audio_def)
  have 5: "events_of (trace ex_keyed) = []"
    by (simp add: ex_keyed_def set_remoteKey_def Let_def ex_live_def ex_call_def ex_session_def)
  have 6: "opus_decode ex_env [1, 2, 3] = Some [1, 2, 3]"
    by (simp add: ex_env_def)
  show ?thesis
    using rtpPacket_emitted_first [OF 1 _ _ 2 3 4] 5 6 by (simp add: ex_header_def)
qed

lemma notifyHandler_disposed: "disposed (snd (notifyHandler k s m)) = disposed s"
  by (simp add: notifyHandler_def softphone_send_def Let_def)

lemma byeHandler_keeps_disposed: "disposed s \<Longrightarrow> disposed (snd (byeHandler k s m))"
  by (simp add: byeHandler_def dispose_disposed split: option.splits)

lemma dispatch_keeps_disposed: "disposed s \<Longrightarrow> disposed (snd (dispatch hs s m))"
proof (induction hs arbitrary: s)
  case Nil
  then show ?case by simp
next
  case (Cons h hs)
  obtain e s1 where r: "run_handler h s m = (e, s1)"
    by (cases "run_handler h s m")
  have "disposed (snd (run_handler h s m))"
    using Cons.prems by (cases h) (simp_all add: notifyHandler_disposed byeHandler_keeps_disposed)
  then have "disposed s1"
    using r by simp
  with Cons.IH [of s1] r show ?case
    by (cases e) simp_all
qed

lemma byeHandler_on_bye:
  assumes "headers m ''Call-ID'' = callId s"
    and "headers m ''CSeq'' = Some cseq" and "endsWith cseq '' BYE''"
  shows "disposed (snd (byeHandler k s m))"
  using assms by (simp add: byeHandler_def dispose_disposed)

lemma dispatch_bye_disposes:
  assumes "\<exists>k. ByeHandler k \<in> set hs"
    and "headers m ''Call-ID'' = callId s"
    and "headers m ''CSeq'' = Some cseq" and "endsWith cseq '' BYE''"
  shows "disposed (snd (dispatch hs s m))"
  using assms
proof (induction hs arbitrary: s)
  case Nil
  then show ?case by simp
next
  case (Cons h hs)
  show ?case
  proof (cases h)
    case (ByeHandler j)
    obtain e s1 where r: "byeHandler j s m = (e, s1)"
      by (cases "byeHandler j s m")
    have d: "disposed s1"
      using byeHandler_on_bye [OF Cons.prems(2,3,4), of j] r by simp
    show ?thesis
      using ByeHandler r d dispatch_keeps_disposed [OF d, of hs m] by (cases e) simp_all
  next
    case (NotifyHandler j)
    obtain s1 where r: "notifyHandler j s m = (None, s1)"
      using notifyHandler_quiet(1) [of j s m] by (cases "notifyHandler j s m") auto
    have ci: "callId s1 = callId s"
      using notifyHandler_quiet(4) [of j s m] r by simp
    have "\<exists>k. ByeHandler k \<in> set hs"
      using Cons.prems(1) NotifyHandler by auto
    from Cons.IH [OF this, of s1] Cons.prems(2,3,4) ci NotifyHandler r
    show ?thesis by simp
  qed
qed

lemma hangup_fields:
  "callId (snd (hangup s br)) = callId s"
  "handlers (snd (hangup s br)) = handlers s"
  by (simp_all add: hangup_def softphone_send_def callId_def)

text \<open>
  C9. \<open>hangup\<close> hands one BYE request to the signaling channel, addressed to the domain
  of the home server and carrying the session's Call-ID, and changes nothing else: the
  disposed flag, the listeners and the socket are as before and no event is emitted. The
  session is disposed later, when the softphone delivers a message with the session's
  Call-ID whose CSeq ends in BYE to the registered busy/teardown listener.
\<close>

theorem hangup_only_sends_bye:
  "hangup s br =
     (None, s\<lparr>trace := trace s @
        [SoftphoneSend (RequestMessage
           (''BYE sip:'' @ sipInfo_domain (softphone s) @ '' SIP/2.0'')
           [(''Call-ID'', callId s), (''From'', Some (localPeer s)), (''To'', Some (remotePeer s)),
            (''Via'', Some (''SIP/2.0/TLS '' @ fakeDomain (softphone s) @ '';branch='' @ br))])]\<rparr>) \<and>
   (ByeHandler k \<in> set (handlers s) \<and> headers m ''Call-ID'' = callId s \<and>
    headers m ''CSeq'' = Some cseq \<and> endsWith cseq '' BYE'' \<longrightarrow>
      disposed (snd (softphone_message (snd (hangup s br)) m)))"
proof (intro conjI impI)
  show "hangup s br =
     (None, s\<lparr>trace := trace s @
        [SoftphoneSend (RequestMessage
           (''BYE sip:'' @ sipInfo_domain (softphone s) @ '' SIP/2.0'')
           [(''Call-ID'', callId s), (''From'', Some (localPeer s)), (''To'', Some (remotePeer s)),
            (''Via'', Some (''SIP/2.0/TLS '' @ fakeDomain (softphone s) @ '';branch='' @ br))])]\<rparr>)"
    by (simp add: hangup_def softphone_send_def)
next
  assume a: "ByeHandler k \<in> set (handlers s) \<and> headers m ''Call-ID'' = callId s \<and>
    headers m ''CSeq'' = Some cseq \<and> endsWith cseq '' BYE''"
  then have "\<exists>j. ByeHandler j \<in> set (handlers (snd (hangup s br)))"
    by (auto simp: hangup_fields)
  moreover have "headers m ''Call-ID'' = callId (snd (hangup s br))"
    using a by (simp add: hangup_fields)
  ultimately show "disposed (snd (softphone_message (snd (hangup s br)) m))"
    unfolding softphone_message_def using a by (blast intro: dispatch_bye_disposes)
qed

theorem hangup_only_sends_bye_witness:
  "\<not> disposed (snd (hangup ex_live ''z9hG4bK-2'')) \<and>
   requests_sent (trace (snd (hangup ex_live ''z9hG4bK-2''))) = [''BYE sip:sip.example.com SIP/2.0''] \<and>
   ByeHandler 0 \<in> set (handlers ex_live) \<and> headers ex_bye ''Call-ID'' = callId ex_live \<and>
   headers ex_bye ''CSeq'' = Some ''2 BYE'' \<and> endsWith ''2 BYE'' '' BYE'' \<and>
   disposed (snd (softphone_message (snd (hangup ex_live ''z9hG4bK-2'')) ex_bye))"
proof -
  have 1: "ByeHandler 0 \<in> set (handlers ex_live)"
    by (simp add: ex_live_def ex_call_def ex_session_def)
  have 2: "headers ex_bye ''Call-ID'' = callId ex_live"
    by (simp add: ex_bye_def callId_def ex_live_def ex_call_def ex_session_def ex_invite_def)
  have 3: "headers ex_bye ''CSeq'' = Some ''2 BYE''"
    by (simp add: ex_bye_def)
  have 4: "endsWith ''2 BYE'' '' BYE''"
    by (simp add: endsWith_def)
  have 5: "\<not> disposed ex_live" "requests_sent (trace ex_live) = []"
    "sipInfo_domain (softphone ex_live) = ''sip.example.com''"
    by (simp_all add: ex_live_def ex_call_def ex_session_def ex_softphone_def)
  note h = hangup_only_sends_bye [of ex_live "''z9hG4bK-2''" 0 ex_bye "''2 BYE''"]
  have a: "\<not> disposed (snd (hangup ex_live ''z9hG4bK-2''))"
    "requests_sent (trace (snd (hangup ex_live ''z9hG4bK-2''))) = [''BYE sip:sip.example.com SIP/2.0'']"
    using h 5 by (simp_all add: requests_sent_append)
  have b: "disposed (snd (softphone_message (snd (hangup ex_live ''z9hG4bK-2'')) ex_bye))"
    using h 1 2 3 4 by blast
  show ?thesis
    using a b 1 2 3 4 by blast
qed

text \<open>
  C4. With \<open>DTMF.charToPayloads\<close> as the spec describes it, \<open>sendDTMF\<close> with a string that
  is not one of the characters 0-9, * and # raises before anything is encrypted or sent:
  the session, and with it the trace, is as before the call.
\<close>

theorem sendDTMF_rejects_other_chars:
  assumes "char \<notin> set phoneChars"
    and "charToPayloads env = charToPayloads_spec burst"
  shows "sendDTMF env s char now rnd = (Some DtmfError, s)"
proof -
  have "indexOf xs char = None" if "char \<notin> set xs" for xs :: "string list"
    using that by (induction xs) auto
  with assms show ?thesis
    by (simp add: sendDTMF_def Let_def charToPayloads_spec_def)
qed

theorem sendDTMF_rejects_other_chars_witness:
  "''A'' \<notin> set phoneChars \<and> sendDTMF ex_env ex_keyed ''A'' 1700000000000 42 = (Some DtmfError, ex_keyed)"
proof -
  have 1: "''A'' \<notin> set phoneChars"
    by (simp add: phoneChars_def)
  have 2: "charToPayloads ex_env =
      charToPayloads_spec (\<lambda>code. [[word_of_nat code, 10, 0, 160], [word_of_nat code, 138, 3, 32]])"
    by (simp add: ex_env_def)
  show ?thesis
    using sendDTMF_rejects_other_chars [OF 1 2] 1 by simp
qed









lemma byeHandler_ignores_other_calls:
  "headers m ''Call-ID'' \<noteq> callId s \<Longrightarrow> byeHandler k s m = (None, s)"
  by (simp add: byeHandler_def)

lemma notifyHandler_answers_any_call:
  "startsWith (subject m) ''NOTIFY '' \<Longrightarrow>
     sip_sent (trace (snd (notifyHandler k s m))) = sip_sent (trace s) @ [ResponseMessage m 200]"
  by (simp add: notifyHandler_def softphone_send_def Let_def sip_sent_append)

text \<open>
  C3. The NOTIFY listener of \<open>transfer\<close> does not compare Call-IDs. The sample session,
  whose Call-ID is call-1, has called \<open>transfer\<close>; a NOTIFY of the call call-2 with the
  body "SIP/2.0 200 OK" arrives. The session answers it with a 200 response and
  deregisters its NOTIFY listener.
\<close>

theorem notify_of_other_call_answered:
  "callId ex_transferring = Some ''call-1'' \<and>
   headers ex_foreign_notify ''Call-ID'' = Some ''call-2'' \<and>
   handlers ex_transferring = [ByeHandler 0, NotifyHandler 1] \<and>
   sip_sent (trace (snd (softphone_message ex_transferring ex_foreign_notify))) =
     sip_sent (trace ex_transferring) @ [ResponseMessage ex_foreign_notify 200] \<and>
   handlers (snd (softphone_message ex_transferring ex_foreign_notify)) = [ByeHandler 0]"
  by (simp add: ex_transferring_def transfer_def Let_def softphone_send_def ex_live_def ex_call_def
      ex_session_def ex_invite_def callId_def ex_foreign_notify_def softphone_message_def
      byeHandler_def notifyHandler_def startsWith_def trim_def is_space_def sip_sent_append)

lemma byeHandler_notify_request: "notify_request m \<Longrightarrow> byeHandler k t m = (None, t)"
  by (simp add: notify_request_def byeHandler_def split: option.splits)

lemma dispatch_byes_notify_request:
  "\<forall>h \<in> set bs. is_bye h \<Longrightarrow> notify_request m \<Longrightarrow> dispatch bs t m = (None, t)"
proof (induction bs)
  case Nil
  show ?case by simp
next
  case (Cons h bs)
  then obtain j where "h = ByeHandler j"
    by (cases h) auto
  with Cons show ?case
    by (simp add: byeHandler_notify_request)
qed

lemma dispatch_append:
  "dispatch (xs @ ys) s m =
     (case dispatch xs s m of (Some e, s1) \<Rightarrow> (Some e, s1) | (None, s1) \<Rightarrow> dispatch ys s1 m)"
  by (induction xs arbitrary: s) (auto split: prod.splits option.splits)

lemma deliver_idle:
  assumes "\<forall>h \<in> set (handlers t). is_bye h" and "notify_request m"
  shows "snd (softphone_message t m) = t"
  using assms by (simp add: softphone_message_def dispatch_byes_notify_request)

lemma deliver_pending:
  assumes "handlers t = bs @ [NotifyHandler n]" and "\<forall>h \<in> set bs. is_bye h"
    and "notify_request m"
  shows "sip_sent (trace (snd (softphone_message t m))) =
           sip_sent (trace t) @ [ResponseMessage m 200]"
    and "handlers (snd (softphone_message t m)) =
           (if final_notify m then bs else bs @ [NotifyHandler n])"
proof -
  have nb: "NotifyHandler n \<notin> set bs"
    using assms(2) by auto
  have st: "startsWith (subject m) ''NOTIFY ''"
    using assms(3) by (simp add: notify_request_def)
  have d: "softphone_message t m = notifyHandler n t m"
    using assms
    by (simp add: softphone_message_def dispatch_append dispatch_byes_notify_request
        split: prod.splits option.splits)
  show "sip_sent (trace (snd (softphone_message t m))) =
           sip_sent (trace t) @ [ResponseMessage m 200]"
    using st by (simp add: d notifyHandler_def softphone_send_def Let_def sip_sent_append)
  show "handlers (snd (softphone_message t m)) =
           (if final_notify m then bs else bs @ [NotifyHandler n])"
    using st nb assms(1)
    by (simp add: d notifyHandler_def softphone_send_def Let_def final_notify_def remove1_append)
qed

lemma deliver_all_idle:
  "\<forall>h \<in> set (handlers t). is_bye h \<Longrightarrow> \<forall>m \<in> set ms. notify_request m \<Longrightarrow> deliver_all t ms = t"
  by (induction ms) (simp_all add: deliver_all_def deliver_idle)

lemma deliver_all_pending:
  assumes "\<forall>h \<in> set bs. is_bye h"
  shows "handlers t = bs @ [NotifyHandler n] \<Longrightarrow> \<forall>m \<in> set ms. notify_request m \<Longrightarrow>
     sip_sent (trace (deliver_all t ms)) =
       sip_sent (trace t) @ map (\<lambda>m. ResponseMessage m 200) (until_final ms) \<and>
     handlers (deliver_all t ms) =
       (if \<exists>m \<in> set ms. final_notify m then bs else bs @ [NotifyHandler n])"
proof (induction ms arbitrary: t)
  case Nil
  then show ?case by (simp add: deliver_all_def)
next
  case (Cons m ms)
  let ?t = "snd (softphone_message t m)"
  have nr: "notify_request m" and rest: "\<forall>m \<in> set ms. notify_request m"
    using Cons.prems(2) by simp_all
  note one = deliver_pending [OF Cons.prems(1) assms nr]
  have unfold: "deliver_all t (m # ms) = deliver_all ?t ms"
    by (simp add: deliver_all_def)
  show ?case
  proof (cases "final_notify m")
    case True
    then have "\<forall>h \<in> set (handlers ?t). is_bye h"
      using one(2) assms by simp
    then have "deliver_all ?t ms = ?t"
      using rest by (rule deliver_all_idle)
    then show ?thesis
      using True one unfold by simp
  next
    case False
    then have "handlers ?t = bs @ [NotifyHandler n]"
      using one(2) by simp
    from Cons.IH [OF this rest] False one(1) unfold show ?thesis
      by simp
  qed
qed

text \<open>
  C8. On a session with no transfer in progress, \<open>transfer\<close> hands one REFER request to
  the signaling channel: its request URI is built from the remote peer and its Refer-To
  header from the target. Of the NOTIFY requests that arrive afterwards, each one up to
  and including the first whose body is "SIP/2.0 200 OK" is answered with a 200
  response; that one deregisters the listener, and the later ones get no answer.
\<close>

theorem transfer_refer_then_notify:
  assumes "\<forall>h \<in> set (handlers s). is_bye h" and "\<forall>m \<in> set ms. notify_request m"
  shows "sip_sent (trace (deliver_all (snd (transfer env s target br)) ms)) =
     sip_sent (trace s) @
       RequestMessage (''REFER sip:'' @ extractAddress env (remotePeer s) @ '' SIP/2.0'')
         [(''Call-ID'', callId s),
          (''From'', Some (localPeer s)),
          (''To'', Some (remotePeer s)),
          (''Via'', Some (''SIP/2.0/TLS '' @ fakeDomain (softphone s) @ '';branch='' @ br)),
          (''Refer-To'', Some (''sip:'' @ target @ ''@sip.ringcentral.com'')),
          (''Referred-By'', Some (''<'' @ extractAddress env (localPeer s) @ ''>''))] #
       map (\<lambda>m. ResponseMessage m 200) (until_final ms) \<and>
     handlers (deliver_all (snd (transfer env s target br)) ms) =
       (if \<exists>m \<in> set ms. final_notify m then handlers s
        else handlers s @ [NotifyHandler (next_handler s)])"
proof -
  let ?t = "snd (transfer env s target br)"
  have h: "handlers ?t = handlers s @ [NotifyHandler (next_handler s)]"
    by (simp add: transfer_def Let_def softphone_send_def)
  have tr: "sip_sent (trace ?t) = sip_sent (trace s) @
       [RequestMessage (''REFER sip:'' @ extractAddress env (remotePeer s) @ '' SIP/2.0'')
         [(''Call-ID'', callId s),
          (''From'', Some (localPeer s)),
          (''To'', Some (remotePeer s)),
          (''Via'', Some (''SIP/2.0/TLS '' @ fakeDomain (softphone s) @ '';branch='' @ br)),
          (''Refer-To'', Some (''sip:'' @ target @ ''@sip.ringcentral.com'')),
          (''Referred-By'', Some (''<'' @ extractAddress env (localPeer s) @ ''>''))]]"
    by (simp add: transfer_def Let_def softphone_send_def sip_sent_append callId_def)
  from deliver_all_pending [OF assms(1) h assms(2)] tr show ?thesis
    by simp
qed

theorem transfer_refer_then_notify_witness:
  "sip_sent (trace (deliver_all (snd (transfer ex_env ex_live ''18005551212'' ''z9hG4bK-1''))
       [ex_notify ''SIP/2.0 100 Trying'', ex_notify ''SIP/2.0 200 OK'', ex_notify ''SIP/2.0 200 OK''])) =
     [RequestMessage ''REFER sip:bob@example.com SIP/2.0''
        [(''Call-ID'', Some ''call-1''), (''From'', Some ''<sip:alice@example.com>''),
         (''To'', Some ''<sip:bob@example.com>''),
         (''Via'', Some ''SIP/2.0/TLS fake.invalid;branch=z9hG4bK-1''),
         (''Refer-To'', Some ''sip:18005551212@sip.ringcentral.com''),
         (''Referred-By'', Some ''<alice@example.com>'')],
      ResponseMessage (ex_notify ''SIP/2.0 100 Trying'') 200,
      ResponseMessage (ex_notify ''SIP/2.0 200 OK'') 200] \<and>
   handlers (deliver_all (snd (transfer ex_env ex_live ''18005551212'' ''z9hG4bK-1''))
       [ex_notify ''SIP/2.0 100 Trying'', ex_notify ''SIP/2.0 200 OK'', ex_notify ''SIP/2.0 200 OK'']) =
     [ByeHandler 0]"
proof -
  have 1: "\<forall>h \<in> set (handlers ex_live). is_bye h"
    by (simp add: ex_live_def ex_call_def ex_session_def)
  have nr: "notify_request (ex_notify b)" for b
    by (simp add: notify_request_def ex_notify_def startsWith_def endsWith_def)
  have 2: "\<forall>m \<in> set [ex_notify ''SIP/2.0 100 Trying'', ex_notify ''SIP/2.0 200 OK'',
      ex_notify ''SIP/2.0 200 OK'']. notify_request m"
    by (simp add: nr)
  have 3: "\<not> final_notify (ex_notify ''SIP/2.0 100 Trying'')" "final_notify (ex_notify ''SIP/2.0 200 OK'')"
    by (simp_all add: final_notify_def ex_notify_def trim_def is_space_def)
  have 4: "sip_sent (trace ex_live) = []" "handlers ex_live = [ByeHandler 0]"
    "callId ex_live = Some ''call-1''" "localPeer ex_live = ''<sip:alice@example.com>''"
    "remotePeer ex_live = ''<sip:bob@example.com>''"
    "fakeDomain (softphone ex_live) = ''fake.invalid''"
    "extractAddress ex_env ''<sip:alice@example.com>'' = ''alice@example.com''"
    "extractAddress ex_env ''<sip:bob@example.com>'' = ''bob@example.com''"
    by (simp_all add: ex_live_def ex_call_def ex_session_def callId_def ex_invite_def ex_softphone_def ex_env_def)
  show ?thesis
    using transfer_refer_then_notify [OF 1 2, of ex_env "''18005551212''" "''z9hG4bK-1''"] 3 4
    by simp
qed

lemma search_None: "search m s = None \<longleftrightarrow> (\<forall>pre t. s = pre @ t \<longrightarrow> m t = None)"
proof (induction s)
  case Nil
  show ?case by simp
next
  case (Cons c cs)
  have "(\<forall>pre t. c # cs = pre @ t \<longrightarrow> m t = None) \<longleftrightarrow>
        m (c # cs) = None \<and> (\<forall>pre t. cs = pre @ t \<longrightarrow> m t = None)"
    by (auto simp: Cons_eq_append_conv)
  with Cons.IH show ?case
    by (simp split: option.splits)
qed

lemma startsWith_iff: "startsWith s p \<longleftrightarrow> (\<exists>r. s = p @ r)"
  unfolding startsWith_def
proof
  assume "take (length p) s = p"
  then have "s = p @ drop (length p) s"
    by (metis append_take_drop_id)
  then show "\<exists>r. s = p @ r" ..
next
  assume "\<exists>r. s = p @ r"
  then show "take (length p) s = p" by auto
qed

lemma match_c_at_iff:
  "match_c_at t \<noteq> None \<longleftrightarrow>
     (\<exists>ip post. ip \<noteq> [] \<and> (\<forall>c \<in> set ip. is_ip_char c) \<and> t = ''c=IN IP4 '' @ ip @ post)"
proof
  assume "match_c_at t \<noteq> None"
  then have sw: "startsWith t ''c=IN IP4 ''" and ne: "takeWhile is_ip_char (drop 9 t) \<noteq> []"
    by (auto simp: match_c_at_def split: if_splits)
  from sw obtain r where r: "t = ''c=IN IP4 '' @ r"
    unfolding startsWith_iff ..
  then have "drop 9 t = r" by simp
  with ne have "takeWhile is_ip_char r \<noteq> []" by simp
  moreover have "\<forall>c \<in> set (takeWhile is_ip_char r). is_ip_char c"
    by (auto dest: set_takeWhileD)
  moreover have "t = ''c=IN IP4 '' @ takeWhile is_ip_char r @ dropWhile is_ip_char r"
    using r by simp
  ultimately show "\<exists>ip post. ip \<noteq> [] \<and> (\<forall>c \<in> set ip. is_ip_char c) \<and> t = ''c=IN IP4 '' @ ip @ post"
    by blast
next
  assume "\<exists>ip post. ip \<noteq> [] \<and> (\<forall>c \<in> set ip. is_ip_char c) \<and> t = ''c=IN IP4 '' @ ip @ post"
  then obtain ip post where ip: "ip \<noteq> []" "\<forall>c \<in> set ip. is_ip_char c"
    and t: "t = ''c=IN IP4 '' @ ip @ post"
    by blast
  have "startsWith t ''c=IN IP4 ''"
    unfolding startsWith_iff using t by blast
  moreover have "drop 9 t = ip @ post"
    using t by simp
  moreover have "takeWhile is_ip_char (ip @ post) \<noteq> []"
    using ip by (cases ip) simp_all
  ultimately show "match_c_at t \<noteq> None"
    by (simp add: match_c_at_def)
qed

lemma match_m_at_iff:
  "match_m_at t \<noteq> None \<longleftrightarrow>
     (\<exists>port post. port \<noteq> [] \<and> (\<forall>c \<in> set port. is_digit c) \<and> t = ''m=audio '' @ port @ '' '' @ post)"
proof
  assume "match_m_at t \<noteq> None"
  then have sw: "startsWith t ''m=audio ''" and ne: "takeWhile is_digit (drop 8 t) \<noteq> []"
    and sp: "startsWith (dropWhile is_digit (drop 8 t)) '' ''"
    by (auto simp: match_m_at_def split: if_splits)
  from sw obtain r where r: "t = ''m=audio '' @ r"
    unfolding startsWith_iff ..
  then have d: "drop 8 t = r" by simp
  from sp d obtain post where post: "dropWhile is_digit r = '' '' @ post"
    unfolding startsWith_iff by auto
  have "takeWhile is_digit r \<noteq> []"
    using ne d by simp
  moreover have "\<forall>c \<in> set (takeWhile is_digit r). is_digit c"
    by (auto dest: set_takeWhileD)
  moreover have "r = takeWhile is_digit r @ '' '' @ post"
    using post by (metis takeWhile_dropWhile_id)
  then have "t = ''m=audio '' @ takeWhile is_digit r @ '' '' @ post"
    using r by simp
  ultimately show "\<exists>port post. port \<noteq> [] \<and> (\<forall>c \<in> set port. is_digit c) \<and>
      t = ''m=audio '' @ port @ '' '' @ post"
    by blast
next
  assume "\<exists>port post. port \<noteq> [] \<and> (\<forall>c \<in> set port. is_digit c) \<and>
      t = ''m=audio '' @ port @ '' '' @ post"
  then obtain port post where port: "port \<noteq> []" "\<forall>c \<in> set port. is_digit c"
    and t: "t = ''m=audio '' @ port @ '' '' @ post"
    by blast
  have sw: "startsWith t ''m=audio ''"
    unfolding startsWith_iff using t by blast
  have d: "drop 8 t = port @ '' '' @ post"
    using t by simp
  have nd: "\<not> is_digit CHR '' ''"
    by (simp add: is_digit_def)
  have tw: "takeWhile is_digit (port @ '' '' @ post) = port"
    using port(2) nd by (simp add: takeWhile_append2)
  have dw: "dropWhile is_digit (port @ '' '' @ post) = '' '' @ post"
    using port(2) nd by (simp add: dropWhile_append2)
  have "startsWith ('' '' @ post) '' ''"
    unfolding startsWith_iff by blast
  with sw d tw dw port(1) show "match_m_at t \<noteq> None"
    by (simp add: match_m_at_def)
qed

lemma search_Some_iff:
  assumes "\<And>t. (M t \<noteq> None) = (\<exists>x post. P x \<and> t = lit @ x @ suf @ post)"
  shows "(search M b \<noteq> None) = (\<exists>pre x post. P x \<and> b = pre @ lit @ x @ suf @ post)"
proof -
  have "(search M b \<noteq> None) = (\<exists>pre t. b = pre @ t \<and> M t \<noteq> None)"
    by (simp add: search_None)
  also have "\<dots> = (\<exists>pre t. b = pre @ t \<and> (\<exists>x post. P x \<and> t = lit @ x @ suf @ post))"
    by (simp only: assms)
  also have "\<dots> = (\<exists>pre x post. P x \<and> b = pre @ lit @ x @ suf @ post)"
    by auto
  finally show ?thesis .
qed

lemma has_connection_line_iff: "has_connection_line b \<longleftrightarrow> search match_c_at b \<noteq> None"
proof -
  have "(match_c_at t \<noteq> None) =
      (\<exists>ip post. (ip \<noteq> [] \<and> (\<forall>c \<in> set ip. is_ip_char c)) \<and> t = ''c=IN IP4 '' @ ip @ [] @ post)" for t
    unfolding match_c_at_iff append_Nil conj_assoc ..
  from search_Some_iff [of match_c_at, OF this]
  have "(search match_c_at b \<noteq> None) =
      (\<exists>pre ip post. (ip \<noteq> [] \<and> (\<forall>c \<in> set ip. is_ip_char c)) \<and> b = pre @ ''c=IN IP4 '' @ ip @ [] @ post)" .
  then show ?thesis
    unfolding has_connection_line_def append_Nil conj_assoc ..
qed

lemma has_audio_line_iff: "has_audio_line b \<longleftrightarrow> search match_m_at b \<noteq> None"
proof -
  have "(match_m_at t \<noteq> None) =
      (\<exists>port post. (port \<noteq> [] \<and> (\<forall>c \<in> set port. is_digit c)) \<and> t = ''m=audio '' @ port @ '' '' @ post)" for t
    unfolding match_m_at_iff conj_assoc ..
  from search_Some_iff [of match_m_at, OF this]
  have "(search match_m_at b \<noteq> None) =
      (\<exists>pre port post. (port \<noteq> [] \<and> (\<forall>c \<in> set port. is_digit c)) \<and> b = pre @ ''m=audio '' @ port @ '' '' @ post)" .
  then show ?thesis
    unfolding has_audio_line_def conj_assoc ..
qed

text \<open>
  C7. When the body of the SIP message has no \<open>c=IN IP4 <ip>\<close> field or no
  \<open>m=audio <port> \<close> field, the constructor raises a TypeError and yields no session.
  The constructor opens no socket: a session it does yield has none, and its trace is
  empty.
\<close>

theorem construction_fails_without_media_lines:
  "(\<not> has_connection_line (body msg) \<or> \<not> has_audio_line (body msg) \<longrightarrow>
      CallSession_constructor sp msg = Inl TypeError) \<and>
   (\<forall>s. CallSession_constructor sp msg = Inr s \<longrightarrow> socket s = None \<and> trace s = [])"
  by (auto simp: CallSession_constructor_def has_connection_line_iff has_audio_line_iff
      split: option.splits)

theorem construction_fails_without_media_lines_witness:
  "\<not> has_audio_line (body ex_no_audio) \<and>
   CallSession_constructor ex_softphone ex_no_audio = Inl TypeError \<and>
   CallSession_constructor ex_softphone ex_invite = Inr ex_session \<and>
   socket ex_session = None \<and> trace ex_session = []"
proof -
  have 1: "\<not> has_audio_line (body ex_no_audio)"
    unfolding has_audio_line_iff
    by (simp add: ex_no_audio_def match_m_at_def startsWith_def)
  have 2: "CallSession_constructor ex_softphone ex_invite = Inr ex_session"
    by (simp add: CallSession_constructor_def ex_invite_def ex_session_def match_c_at_def
        match_m_at_def startsWith_def is_ip_char_def is_digit_def parseInt_def)
  show ?thesis
    using construction_fails_without_media_lines [of ex_no_audio ex_softphone]
      construction_fails_without_media_lines [of ex_invite ex_softphone] 1 2
    by blast
qed

section \<open>The invariant of a started session\<close>

lemma quiet_refl: "quiet s s"
  by (simp add: quiet_def)

lemma quiet_trans: "quiet s s1 \<Longrightarrow> quiet s1 s2 \<Longrightarrow> quiet s s2"
  unfolding quiet_def by (elim conjE exE) (rule conjI, simp, rule conjI, simp, rule conjI, simp,
    rule_tac x = "es @ esa" in exI, auto)

lemma quiet_settled:
  assumes "quiet s s'" and "settled s"
  shows "settled s'"
proof -
  from assms(1) obtain es where d: "disposed s' = disposed s" and so: "socket s' = socket s"
    and hs: "filter is_bye (handlers s') = filter is_bye (handlers s)"
    and tr: "trace s' = trace s @ es" and nt: "\<forall>e \<in> set es. \<not> terminal e"
    and io: "dead (socket s) \<longrightarrow> (\<forall>e \<in> set es. \<not> is_io e)"
    unfolding quiet_def by blast
  have nd: "SetDisposed \<notin> set es"
    using nt by force
  show ?thesis
  proof (cases "disposed s")
    case True
    with assms(2) have dd: "dead (socket s)" and m: "SetDisposed \<in> set (trace s)"
      and b: "filter is_bye (handlers s) = []"
      and t: "\<exists>ids. filter is_io (after_disposed (trace s)) = [Emit EvDisposed ids]"
      by (simp_all add: settled_def)
    have "after_disposed (trace s') = after_disposed (trace s) @ es"
      unfolding after_disposed_def tr using m by (simp add: dropWhile_append1)
    moreover have "filter is_io es = []"
      using io dd by (simp add: filter_empty_conv)
    ultimately show ?thesis
      using True d so hs tr m b t dd by (simp add: settled_def)
  next
    case False
    with assms(2) d hs tr nd show ?thesis
      by (simp add: settled_def)
  qed
qed

lemma quiet_send: "quiet s (snd (send s d))"
  by (auto simp: quiet_def send_def dead_def split: option.splits)

lemma quiet_softphone_send: "quiet s (softphone_send s m)"
  by (simp add: quiet_def softphone_send_def)

lemma quiet_transfer: "quiet s (snd (transfer env s target br))"
  by (simp add: quiet_def transfer_def Let_def softphone_send_def)

lemma quiet_hangup: "quiet s (snd (hangup s br))"
  by (simp add: quiet_def hangup_def softphone_send_def)

lemma quiet_sendDTMF_loop: "quiet s (snd (sendDTMF_loop env s h n ps))"
proof (induction env s h n ps rule: sendDTMF_loop.induct)
  case (1 env s rtpHeader seqno)
  show ?case by (simp add: quiet_refl)
next
  case (2 env s rtpHeader seqno p ps)
  let ?h = "rtpHeader\<lparr>sequenceNumber := seqno\<rparr>"
  show ?case
  proof (cases "srtpSession s")
    case None
    then show ?thesis by (simp add: quiet_refl)
  next
    case (Some k)
    let ?s1 = "s\<lparr>trace := trace s @ [SrtpEncrypt p ?h]\<rparr>"
    have q1: "quiet s ?s1"
      by (simp add: quiet_def)
    show ?thesis
    proof (cases "srtp_encrypt env k p ?h")
      case None
      with Some q1 show ?thesis by simp
    next
      case ct: (Some ct)
      obtain e s2 where r: "send ?s1 (Buf ct) = (e, s2)"
        by (cases "send ?s1 (Buf ct)")
      have q2: "quiet s s2"
        using quiet_trans [OF q1 quiet_send [of ?s1 "Buf ct"]] r by simp
      show ?thesis
      proof (cases e)
        case None
        have "quiet s2 (snd (sendDTMF_loop env s2 ?h (Suc seqno) ps))"
          using "2.IH" [OF refl Some refl ct] r None by simp
        with q2 have "quiet s (snd (sendDTMF_loop env s2 ?h (Suc seqno) ps))"
          by (rule quiet_trans)
        with Some ct r None show ?thesis by simp
      next
        case (Some err)
        with \<open>srtpSession s = Some k\<close> ct r q2 show ?thesis by simp
      qed
    qed
  qed
qed

lemma quiet_sendDTMF: "quiet s (snd (sendDTMF env s char now rnd))"
  by (simp add: sendDTMF_def Let_def quiet_refl quiet_sendDTMF_loop split: option.splits)

lemma quiet_socket_receive: "quiet s (snd (socket_receive env s message))"
  by (auto simp: quiet_def socket_receive_def socket_message_handler_def Let_def emit_def dead_def
      split: option.splits)

lemma filter_is_bye_remove1_notify:
  "filter is_bye (remove1 (NotifyHandler k) hs) = filter is_bye hs"
  by (induction hs) auto

lemma quiet_notifyHandler: "quiet s (snd (notifyHandler k s m))"
  by (simp add: quiet_def notifyHandler_def Let_def softphone_send_def filter_is_bye_remove1_notify)

lemma filter_is_bye_remove1_bye:
  "length (filter is_bye hs) \<le> 1 \<Longrightarrow> ByeHandler j \<in> set hs \<Longrightarrow>
     filter is_bye (remove1 (ByeHandler j) hs) = []"
proof (induction hs)
  case Nil
  then show ?case by simp
next
  case (Cons h hs)
  show ?case
  proof (cases "h = ByeHandler j")
    case True
    with Cons.prems(1) show ?thesis by simp
  next
    case False
    then have mem: "ByeHandler j \<in> set hs"
      using Cons.prems(2) by simp
    have nb: "\<not> is_bye h"
    proof
      assume "is_bye h"
      then have "filter is_bye hs = []"
        using Cons.prems(1) by simp
      then have "\<forall>x \<in> set hs. \<not> is_bye x"
        by (simp only: filter_empty_conv)
      with mem have "\<not> is_bye (ByeHandler j)" by blast
      then show False by simp
    qed
    then have "length (filter is_bye hs) \<le> 1"
      using Cons.prems(1) by simp
    from Cons.IH [OF this mem] nb False show ?thesis
      by simp
  qed
qed

lemma settled_dispose:
  assumes "\<not> disposed s" and "SetDisposed \<notin> set (trace s)" and "filter is_bye (handlers s) = []"
  shows "settled (snd (dispose s))"
proof -
  have a: "after_disposed (trace s @ es) = after_disposed es" for es
    unfolding after_disposed_def by (rule dropWhile_append2) (use assms(2) in auto)
  have b: "after_disposed (SetDisposed # es) = SetDisposed # es" for es
    by (simp add: after_disposed_def)
  show ?thesis
    using assms(3)
    by (auto simp: settled_def dispose_def Let_def emit_def dead_def a b split: option.splits)
qed

lemma settled_byeHandler:
  assumes "settled s" and "ByeHandler j \<in> set (handlers s)"
  shows "settled (snd (byeHandler j s m))"
proof -
  have b: "filter is_bye (handlers s) \<noteq> []"
    using assms(2) by (force simp: filter_empty_conv)
  with assms(1) have nd: "\<not> disposed s" and nm: "SetDisposed \<notin> set (trace s)"
    and le: "length (filter is_bye (handlers s)) \<le> 1"
    by (auto simp: settled_def split: if_splits)
  let ?s1 = "s\<lparr>handlers := remove1 (ByeHandler j) (handlers s)\<rparr>"
  have r: "filter is_bye (handlers ?s1) = []"
    using filter_is_bye_remove1_bye [OF le assms(2)] by simp
  have 1: "settled (snd (dispose ?s1))"
    using nd nm r by (intro settled_dispose) simp_all
  have 2: "settled (snd (dispose (emit ?s1 EvBusy)))"
    using nd nm r by (intro settled_dispose) (simp_all add: emit_def)
  show ?thesis
    using assms(1) 1 2 by (simp add: byeHandler_def split: option.splits)
qed

lemma bye_mem_filter:
  "filter is_bye hs' = filter is_bye hs \<Longrightarrow> ByeHandler k \<in> set hs \<Longrightarrow> ByeHandler k \<in> set hs'"
proof -
  assume eq: "filter is_bye hs' = filter is_bye hs" and "ByeHandler k \<in> set hs"
  then have "ByeHandler k \<in> set (filter is_bye hs)"
    by simp
  then have "ByeHandler k \<in> set (filter is_bye hs')"
    by (simp only: eq)
  then show ?thesis
    by simp
qed

lemma no_bye_in_rest:
  assumes "length (filter is_bye (ByeHandler j # hs)) \<le> 1"
  shows "ByeHandler k \<notin> set hs"
proof
  assume m: "ByeHandler k \<in> set hs"
  have "filter is_bye hs = []"
    using assms by simp
  then have "\<forall>x \<in> set hs. \<not> is_bye x"
    by (simp only: filter_empty_conv)
  with m have "\<not> is_bye (ByeHandler k)"
    by blast
  then show False
    by simp
qed

lemma settled_dispatch:
  assumes "settled s" and "length (filter is_bye hs) \<le> 1"
    and "\<forall>k. ByeHandler k \<in> set hs \<longrightarrow> ByeHandler k \<in> set (handlers s)"
  shows "settled (snd (dispatch hs s m))"
  using assms
proof (induction hs arbitrary: s)
  case Nil
  then show ?case by simp
next
  case (Cons h hs)
  obtain e s1 where r: "run_handler h s m = (e, s1)"
    by (cases "run_handler h s m")
  have len: "length (filter is_bye hs) \<le> 1"
    using Cons.prems(2) by (simp split: if_splits)
  have st: "settled s1" and mem: "\<forall>k. ByeHandler k \<in> set hs \<longrightarrow> ByeHandler k \<in> set (handlers s1)"
  proof -
    show "settled s1"
    proof (cases h)
      case (ByeHandler j)
      then have "ByeHandler j \<in> set (handlers s)"
        using Cons.prems(3) by simp
      with Cons.prems(1) have "settled (snd (byeHandler j s m))"
        by (rule settled_byeHandler)
      with r ByeHandler show ?thesis by simp
    next
      case (NotifyHandler j)
      have "settled (snd (notifyHandler j s m))"
        using quiet_notifyHandler Cons.prems(1) by (rule quiet_settled)
      with r NotifyHandler show ?thesis by simp
    qed
    show "\<forall>k. ByeHandler k \<in> set hs \<longrightarrow> ByeHandler k \<in> set (handlers s1)"
    proof (cases h)
      case (ByeHandler j)
      with Cons.prems(2) show ?thesis
        by (simp add: no_bye_in_rest)
    next
      case (NotifyHandler j)
      have "filter is_bye (handlers s1) = filter is_bye (handlers s)"
        using quiet_notifyHandler [of s j m] r NotifyHandler by (simp add: quiet_def)
      then show ?thesis
        using Cons.prems(3) by (auto intro: bye_mem_filter)
    qed
  qed
  have "settled (snd (dispatch hs s1 m))"
    using st len mem by (rule Cons.IH)
  with r st show ?case
    by (cases e) simp_all
qed

lemma quiet_step:
  assumes "\<forall>m. c \<noteq> SipMessage m"
  shows "quiet s (step env s c)"
proof (cases c)
  case (Send d)
  then show ?thesis by (simp add: quiet_send)
next
  case (Transfer target br)
  then show ?thesis by (simp add: quiet_transfer)
next
  case (Hangup br)
  then show ?thesis by (simp add: quiet_hangup)
next
  case (SendDTMF char now rnd)
  then show ?thesis by (simp add: quiet_sendDTMF)
next
  case (SetRemoteKey key)
  then show ?thesis by (simp add: quiet_def set_remoteKey_def Let_def)
next
  case (On name i once)
  then show ?thesis by (simp add: quiet_def)
next
  case (Datagram message)
  then show ?thesis by (simp add: quiet_socket_receive)
next
  case (SipMessage m)
  with assms show ?thesis by simp
qed

lemma settled_step:
  assumes "settled s"
  shows "settled (step env s c)"
proof (cases "\<exists>m. c = SipMessage m")
  case True
  then obtain m where c: "c = SipMessage m" ..
  have "settled (snd (dispatch (handlers s) s m))"
    using assms by (intro settled_dispatch) (simp_all add: settled_def)
  with c show ?thesis
    by (simp add: softphone_message_def)
next
  case False
  then have "quiet s (step env s c)"
    by (intro quiet_step) simp
  then show ?thesis
    using assms by (rule quiet_settled)
qed




lemma settled_startLocalServices:
  assumes "handlers s = []" and "\<not> disposed s" and "SetDisposed \<notin> set (trace s)"
  shows "settled (snd (startLocalServices env s))"
  using assms by (simp add: settled_def startLocalServices_def Let_def send_def)



section \<open>Disposal happens once\<close>

lemma quiet_once:
  assumes "quiet s s'" and "disposed_once s"
  shows "disposed_once s'"
proof -
  from assms(1) obtain es where d: "disposed s' = disposed s"
    and tr: "trace s' = trace s @ es" and nt: "\<forall>e \<in> set es. \<not> terminal e"
    unfolding quiet_def by blast
  have "filter terminal es = []"
    using nt by (simp add: filter_empty_conv)
  with assms(2) d tr show ?thesis
    by (simp add: disposed_once_def)
qed

lemma once_dispose:
  assumes "\<not> disposed s" and "filter terminal (trace s) = []"
  shows "disposed_once (snd (dispose s))"
  using assms(2) by (simp add: disposed_once_def dispose_def Let_def emit_def split: option.splits)

lemma once_byeHandler:
  assumes "settled s" and "disposed_once s" and "ByeHandler j \<in> set (handlers s)"
  shows "disposed_once (snd (byeHandler j s m))"
proof -
  have "filter is_bye (handlers s) \<noteq> []"
    using assms(3) by (force simp: filter_empty_conv)
  with assms(1) have nd: "\<not> disposed s"
    by (auto simp: settled_def split: if_splits)
  with assms(2) have nt: "filter terminal (trace s) = []"
    by (simp add: disposed_once_def)
  let ?s1 = "s\<lparr>handlers := remove1 (ByeHandler j) (handlers s)\<rparr>"
  have 1: "disposed_once (snd (dispose ?s1))"
    using nd nt by (intro once_dispose) simp_all
  have 2: "disposed_once (snd (dispose (emit ?s1 EvBusy)))"
    using nd nt by (intro once_dispose) (simp_all add: emit_def)
  show ?thesis
    using assms(2) 1 2 by (simp add: byeHandler_def split: option.splits)
qed

lemma once_dispatch:
  assumes "settled s" and "disposed_once s" and "length (filter is_bye hs) \<le> 1"
    and "\<forall>k. ByeHandler k \<in> set hs \<longrightarrow> ByeHandler k \<in> set (handlers s)"
  shows "disposed_once (snd (dispatch hs s m))"
  using assms
proof (induction hs arbitrary: s)
  case Nil
  then show ?case by simp
next
  case (Cons h hs)
  obtain e s1 where r: "run_handler h s m = (e, s1)"
    by (cases "run_handler h s m")
  have len: "length (filter is_bye hs) \<le> 1"
    using Cons.prems(3) by (simp split: if_splits)
  have st: "settled s1"
  proof (cases h)
    case (ByeHandler j)
    then have "ByeHandler j \<in> set (handlers s)"
      using Cons.prems(4) by simp
    with Cons.prems(1) have "settled (snd (byeHandler j s m))"
      by (rule settled_byeHandler)
    with r ByeHandler show ?thesis by simp
  next
    case (NotifyHandler j)
    have "settled (snd (notifyHandler j s m))"
      using quiet_notifyHandler Cons.prems(1) by (rule quiet_settled)
    with r NotifyHandler show ?thesis by simp
  qed
  have on: "disposed_once s1"
  proof (cases h)
    case (ByeHandler j)
    then have "ByeHandler j \<in> set (handlers s)"
      using Cons.prems(4) by simp
    with Cons.prems(1,2) have "disposed_once (snd (byeHandler j s m))"
      by (rule once_byeHandler)
    with r ByeHandler show ?thesis by simp
  next
    case (NotifyHandler j)
    have "disposed_once (snd (notifyHandler j s m))"
      using quiet_notifyHandler Cons.prems(2) by (rule quiet_once)
    with r NotifyHandler show ?thesis by simp
  qed
  have mem: "\<forall>k. ByeHandler k \<in> set hs \<longrightarrow> ByeHandler k \<in> set (handlers s1)"
  proof (cases h)
    case (ByeHandler j)
    with Cons.prems(3) show ?thesis
      by (simp add: no_bye_in_rest)
  next
    case (NotifyHandler j)
    have "filter is_bye (handlers s1) = filter is_bye (handlers s)"
      using quiet_notifyHandler [of s j m] r NotifyHandler by (simp add: quiet_def)
    then show ?thesis
      using Cons.prems(4) by (auto intro: bye_mem_filter)
  qed
  have "disposed_once (snd (dispatch hs s1 m))"
    using st on len mem by (rule Cons.IH)
  with r on show ?case
    by (cases e) simp_all
qed

lemma once_step:
  assumes "settled s" and "disposed_once s"
  shows "disposed_once (step env s c)"
proof (cases "\<exists>m. c = SipMessage m")
  case True
  then obtain m where c: "c = SipMessage m" ..
  have "disposed_once (snd (dispatch (handlers s) s m))"
    using assms by (intro once_dispatch) (simp_all add: settled_def)
  with c show ?thesis
    by (simp add: softphone_message_def)
next
  case False
  then have "quiet s (step env s c)"
    by (intro quiet_step) simp
  then show ?thesis
    using assms(2) by (rule quiet_once)
qed

lemma once_run: "settled s \<Longrightarrow> disposed_once s \<Longrightarrow> disposed_once (run env s cs)"
  unfolding run_def
  by (induction cs arbitrary: s) (simp_all add: once_step settled_step)

lemma filter_is_close_terminal: "filter is_close tr = filter is_close (filter terminal tr)"
proof -
  have "(terminal e \<and> is_close e) = is_close e" for e
    by (cases e) simp_all
  then show ?thesis
    by simp
qed

text \<open>
  Along the session's own paths \<open>dispose\<close> runs at most once: after
  \<open>startLocalServices\<close> on a session that was never disposed, whatever calls, datagrams
  and SIP messages follow, the flag is assigned at most once, \<open>disposed\<close> is emitted at
  most once and \<open>close\<close> is invoked at most once.
\<close>

lemma disposal_happens_once:
  assumes "handlers s = []" and "\<not> disposed s" and "filter terminal (trace s) = []"
    and "t = run env (snd (startLocalServices env s)) cs"
  shows "disposed_once t" and "length (filter is_close (trace t)) \<le> 1"
proof -
  let ?s = "snd (startLocalServices env s)"
  have nd: "SetDisposed \<notin> set (trace s)"
  proof
    assume "SetDisposed \<in> set (trace s)"
    then have "SetDisposed \<in> set (filter terminal (trace s))"
      by simp
    with assms(3) show False
      by simp
  qed
  have st: "settled ?s"
    using assms(1,2) nd by (rule settled_startLocalServices)
  have "disposed_once ?s"
    using assms(2,3) by (simp add: disposed_once_def startLocalServices_def Let_def send_def)
  with st show o: "disposed_once t"
    unfolding assms(4) by (rule once_run)
  have "length (filter is_close (filter terminal (trace t))) \<le> 1"
    using o by (auto simp del: filter_filter simp: disposed_once_def split: if_splits)
  then show "length (filter is_close (trace t)) \<le> 1"
    by (simp only: filter_is_close_terminal [of "trace t"])
qed

end
